theory Spec2Isabelle
  imports Main
begin

section \<open>The producer/consumer simulation of \<open>src/lib/streams.ts\<close>\<close>

text \<open>
  The function \<open>runRealTimeStreamDemo\<close> simulates a producer that fires every third
  cycle and a consumer whose cadence depends on the chosen processing speed, sharing a
  buffer of at most five numbers. The embedding below follows the source statement by
  statement. Three things the source takes from its surroundings are made explicit:
  \<^item> the sink \<open>onEvent\<close> becomes the list \<open>emitted\<close> of the events handed to it, in call
    order;
  \<^item> \<open>Math.floor(Math.random() * 100)\<close> becomes a parameter \<open>random\<close>: \<open>random k\<close> is the
    value of the \<open>k\<close>-th evaluation of that expression during the run;
  \<^item> \<open>Date.now()\<close> becomes a parameter \<open>now\<close>: \<open>now k\<close> is the \<open>k\<close>-th reading of the
    clock during the run. Every event reads the clock exactly once, when its object
    literal is built, so the event with index \<open>k\<close> carries \<open>now k\<close>.
  The calls of \<open>Effect.log\<close> go to the library's logger, not to the sink, and
  \<open>Effect.delay(Effect.void, 10)\<close> only lets real time pass; neither touches the
  variables of the simulation.
\<close>

subsection \<open>Data\<close>

datatype StreamEventType =
  CsvRow | Transform | Batch | Complete | Error | Backpressure | Throttle

datatype ProcessingSpeed = Slow | Normal | Fast

text \<open>
  An object literal is an association list from property names to numbers, in the order
  in which the literal lists them. The optional property \<open>data\<close> of an event is an
  \<open>option\<close>.
\<close>

type_synonym jsObject = "(string \<times> int) list"

record StreamEvent =
  type :: StreamEventType
  message :: string
  data :: "jsObject option"
  timestamp :: int

record StreamDemoOptions =
  processingSpeed :: ProcessingSpeed
  enableBackpressure :: bool
  batchSize :: int

text \<open>The local variables of one run, together with the sink's log and the number of random draws.\<close>

record sim =
  cycles :: nat
  itemsGenerated :: nat
  itemsProcessed :: nat
  itemsDropped :: nat
  backpressureEvents :: nat
  buffer :: "int list"
  results :: "int list"
  emitted :: "StreamEvent list"
  draws :: nat

subsection \<open>Constants and small helpers\<close>

fun processDelay :: "ProcessingSpeed \<Rightarrow> nat" where
  "processDelay Slow = 200"
| "processDelay Normal = 50"
| "processDelay Fast = 10"

definition BUFFER_LIMIT :: nat where
  "BUFFER_LIMIT = 5"

definition TOTAL_ITEMS :: nat where
  "TOTAL_ITEMS = 20"

definition producerInterval :: nat where
  "producerInterval = 30"

definition maxCycles :: nat where
  "maxCycles = max (TOTAL_ITEMS * 2) 60"

text \<open>\<open>Math.ceil(n / 10)\<close> for a non-negative integer \<open>n\<close>.\<close>

definition ceilTenth :: "nat \<Rightarrow> nat" where
  "ceilTenth n = (n + 9) div 10"

text \<open>Decimal rendering of an integer, as a template literal prints a number.\<close>

fun digits :: "nat \<Rightarrow> string" where
  "digits n =
     (if n < 10 then [''0123456789'' ! n]
      else digits (n div 10) @ [''0123456789'' ! (n mod 10)])"

declare digits.simps [simp del]

definition showInt :: "int \<Rightarrow> string" where
  "showInt i = (if i < 0 then ''-'' @ digits (nat (- i)) else digits (nat i))"

definition showNat :: "nat \<Rightarrow> string" where
  "showNat n = digits n"

definition speedName :: "ProcessingSpeed \<Rightarrow> string" where
  "speedName sp = (case sp of Slow \<Rightarrow> ''slow'' | Normal \<Rightarrow> ''normal'' | Fast \<Rightarrow> ''fast'')"

text \<open>The pictographs of the messages, as their UTF-8 bytes.\<close>

definition rocket :: string where
  "rocket = [CHR 0xF0, CHR 0x9F, CHR 0x9A, CHR 0x80]"

definition barChart :: string where
  "barChart = [CHR 0xF0, CHR 0x9F, CHR 0x93, CHR 0x8A]"

definition scales :: string where
  "scales = [CHR 0xE2, CHR 0x9A, CHR 0x96, CHR 0xEF, CHR 0xB8, CHR 0x8F]"

definition outbox :: string where
  "outbox = [CHR 0xF0, CHR 0x9F, CHR 0x93, CHR 0xA4]"

definition inbox :: string where
  "inbox = [CHR 0xF0, CHR 0x9F, CHR 0x93, CHR 0xA5]"

definition arrow :: string where
  "arrow = [CHR 0xE2, CHR 0x86, CHR 0x92]"

definition stopSign :: string where
  "stopSign = [CHR 0xF0, CHR 0x9F, CHR 0x9B, CHR 0x91]"

definition collision :: string where
  "collision = [CHR 0xF0, CHR 0x9F, CHR 0x92, CHR 0xA5]"

definition checkMark :: string where
  "checkMark = [CHR 0xE2, CHR 0x9C, CHR 0x85]"

definition lightBulb :: string where
  "lightBulb = [CHR 0xF0, CHR 0x9F, CHR 0x92, CHR 0xA1]"

subsection \<open>The messages\<close>

definition msgSimulating :: "bool \<Rightarrow> string" where
  "msgSimulating bp =
     rocket @ '' Simulating Producer/Consumer with ''
       @ (if bp then ''backpressure enabled'' else ''NO backpressure'')"

definition msgSetup :: "ProcessingSpeed \<Rightarrow> string" where
  "msgSetup sp =
     barChart @ '' Producer: fast (every 30ms) | Consumer: '' @ speedName sp
       @ '' | Buffer: max 5 items''"

definition msgTiming :: "nat \<Rightarrow> string" where
  "msgTiming consumerDelay =
     scales @ '' Timing: Producer '' @ showNat producerInterval @ ''ms vs Consumer ''
       @ showNat consumerDelay @ ''ms ''
       @ (if consumerDelay > producerInterval then ''(PRESSURE!)'' else ''(no pressure)'')"

definition msgGenerated :: "int \<Rightarrow> nat \<Rightarrow> string" where
  "msgGenerated newValue len =
     outbox @ '' Generated: '' @ showInt newValue @ '' '' @ arrow @ '' Buffer [''
       @ showNat len @ ''/'' @ showNat BUFFER_LIMIT @ '']''"

definition msgGeneratedUnchecked :: "int \<Rightarrow> nat \<Rightarrow> string" where
  "msgGeneratedUnchecked newValue len =
     msgGenerated newValue len @ '' '' @ (if len = BUFFER_LIMIT then ''(FULL!)'' else '''')"

definition msgBackpressure :: "nat \<Rightarrow> string" where
  "msgBackpressure len =
     stopSign @ '' BACKPRESSURE! Buffer full ['' @ showNat len @ ''/''
       @ showNat BUFFER_LIMIT @ ''] - Producer blocked''"

definition msgOverflow :: "int \<Rightarrow> nat \<Rightarrow> string" where
  "msgOverflow dropped lost =
     collision @ '' OVERFLOW! Dropped: '' @ showInt dropped @ '' (Total lost: ''
       @ showNat lost @ '')''"

definition msgProcessed :: "int \<Rightarrow> int \<Rightarrow> nat \<Rightarrow> nat \<Rightarrow> string" where
  "msgProcessed v transformed len done =
     inbox @ '' Processed: '' @ showInt v @ '' '' @ arrow @ '' '' @ showInt transformed
       @ '' | Buffer: ['' @ showNat len @ ''/'' @ showNat BUFFER_LIMIT @ ''] | Done: ''
       @ showNat done"

definition msgFinal :: "nat \<Rightarrow> nat \<Rightarrow> nat \<Rightarrow> string" where
  "msgFinal generated processed lost =
     checkMark @ '' Final: Generated '' @ showNat generated @ '', Processed ''
       @ showNat processed @ '', Lost '' @ showNat lost"

definition msgVerdict :: "bool \<Rightarrow> nat \<Rightarrow> nat \<Rightarrow> string" where
  "msgVerdict bp blocks lost =
     (if bp then
        lightBulb @ '' Backpressure prevented data loss ('' @ showNat blocks @ '' blocks) - ''
          @ (if lost = 0 then ''SUCCESS!'' else ''Some loss occurred'')
      else
        lightBulb @ '' No backpressure: ''
          @ (if lost > 0 then showNat lost @ '' items LOST to overflow!''
             else ''No overflow (consumer kept up)''))"

subsection \<open>Delivering an event\<close>

text \<open>
  \<open>onEvent({type, message, data, timestamp: Date.now()})\<close>: the event is stamped with the
  next clock reading and appended to the sink's log.
\<close>

definition emit ::
  "(nat \<Rightarrow> int) \<Rightarrow> StreamEventType \<Rightarrow> string \<Rightarrow> jsObject option \<Rightarrow> sim \<Rightarrow> sim" where
  "emit now ty msg dat s =
     s\<lparr>emitted := emitted s
          @ [\<lparr>type = ty, message = msg, data = dat, timestamp = now (length (emitted s))\<rparr>]\<rparr>"

subsection \<open>One cycle of the loop\<close>

text \<open>
  The first statement of the \<open>if (buffer.length < BUFFER_LIMIT)\<close> branch and of the tail of
  the branch without backpressure: draw a value, push it, count it. The two branches
  differ only in the message they send, which is passed in.
\<close>

definition generate :: "(nat \<Rightarrow> int) \<Rightarrow> (nat \<Rightarrow> int) \<Rightarrow> (int \<Rightarrow> nat \<Rightarrow> string) \<Rightarrow> sim \<Rightarrow> sim" where
  "generate random now msg s =
     (let newValue = random (draws s);
          s1 = s\<lparr>draws := draws s + 1,
                 buffer := buffer s @ [newValue],
                 itemsGenerated := itemsGenerated s + 1\<rparr>
      in emit now Transform (msg newValue (length (buffer s1)))
           (Some [(''value'', newValue), (''bufferSize'', int (length (buffer s1)))]) s1)"

text \<open>The \<open>else\<close> branch under backpressure: count the block and report it.\<close>

definition blockProducer :: "(nat \<Rightarrow> int) \<Rightarrow> sim \<Rightarrow> sim" where
  "blockProducer now s =
     (let s1 = s\<lparr>backpressureEvents := backpressureEvents s + 1\<rparr>
      in emit now Backpressure (msgBackpressure (length (buffer s1)))
           (Some [(''bufferSize'', int (length (buffer s1)))]) s1)"

text \<open>
  \<open>buffer.shift()\<close> in the branch without backpressure. It runs only when the buffer
  holds at least \<open>BUFFER_LIMIT\<close> items, so the buffer has a head.
\<close>

definition dropOldest :: "(nat \<Rightarrow> int) \<Rightarrow> sim \<Rightarrow> sim" where
  "dropOldest now s =
     (let dropped = hd (buffer s);
          s1 = s\<lparr>buffer := tl (buffer s), itemsDropped := itemsDropped s + 1\<rparr>
      in emit now Error (msgOverflow dropped (itemsDropped s1))
           (Some [(''dropped'', dropped), (''totalDropped'', int (itemsDropped s1))]) s1)"

definition shouldGenerate :: "sim \<Rightarrow> bool" where
  "shouldGenerate s \<longleftrightarrow>
     itemsGenerated s < TOTAL_ITEMS \<and> cycles s mod ceilTenth producerInterval = 0"

definition producerPhase ::
  "StreamDemoOptions \<Rightarrow> (nat \<Rightarrow> int) \<Rightarrow> (nat \<Rightarrow> int) \<Rightarrow> sim \<Rightarrow> sim" where
  "producerPhase opts random now s =
     (if shouldGenerate s then
        if enableBackpressure opts then
          if length (buffer s) < BUFFER_LIMIT then generate random now msgGenerated s
          else blockProducer now s
        else
          generate random now msgGeneratedUnchecked
            (if length (buffer s) \<ge> BUFFER_LIMIT then dropOldest now s else s)
      else s)"

definition shouldConsume :: "StreamDemoOptions \<Rightarrow> sim \<Rightarrow> bool" where
  "shouldConsume opts s \<longleftrightarrow>
     length (buffer s) > 0
       \<and> cycles s mod ceilTenth (processDelay (processingSpeed opts)) = 0"

text \<open>\<open>buffer.shift()!\<close> in the consumer runs under \<open>buffer.length > 0\<close>.\<close>

definition consumerPhase :: "StreamDemoOptions \<Rightarrow> (nat \<Rightarrow> int) \<Rightarrow> sim \<Rightarrow> sim" where
  "consumerPhase opts now s =
     (if shouldConsume opts s then
        let v = hd (buffer s);
            transformed = v * 2;
            s1 = s\<lparr>buffer := tl (buffer s),
                   results := results s @ [transformed],
                   itemsProcessed := itemsProcessed s + 1\<rparr>
        in emit now Transform
             (msgProcessed v transformed (length (buffer s1)) (itemsProcessed s1))
             (Some [(''value'', v), (''transformed'', transformed),
                    (''bufferSize'', int (length (buffer s1))),
                    (''processed'', int (itemsProcessed s1))]) s1
      else s)"

text \<open>The body of the \<open>while\<close> loop: \<open>cycles++\<close>, the producer phase, the consumer phase.\<close>

definition tick :: "StreamDemoOptions \<Rightarrow> (nat \<Rightarrow> int) \<Rightarrow> (nat \<Rightarrow> int) \<Rightarrow> sim \<Rightarrow> sim" where
  "tick opts random now s =
     consumerPhase opts now (producerPhase opts random now (s\<lparr>cycles := cycles s + 1\<rparr>))"

definition running :: "sim \<Rightarrow> bool" where
  "running s \<longleftrightarrow> cycles s < maxCycles \<and> itemsProcessed s < TOTAL_ITEMS"

subsection \<open>The loop and the whole run\<close>

function loop :: "StreamDemoOptions \<Rightarrow> (nat \<Rightarrow> int) \<Rightarrow> (nat \<Rightarrow> int) \<Rightarrow> sim \<Rightarrow> sim" where
  "loop opts random now s =
     (if running s then loop opts random now (tick opts random now s) else s)"
  by pat_completeness auto
termination
  by (relation "measure (\<lambda>(opts, random, now, s). maxCycles - cycles s)")
     (auto simp: running_def tick_def producerPhase_def consumerPhase_def generate_def
        blockProducer_def dropOldest_def emit_def Let_def)

declare loop.simps [simp del]

text \<open>The states after each cycle of the loop, first cycle first.\<close>

function loopStates ::
  "StreamDemoOptions \<Rightarrow> (nat \<Rightarrow> int) \<Rightarrow> (nat \<Rightarrow> int) \<Rightarrow> sim \<Rightarrow> sim list" where
  "loopStates opts random now s =
     (if running s then
        tick opts random now s # loopStates opts random now (tick opts random now s)
      else [])"
  by pat_completeness auto
termination
  by (relation "measure (\<lambda>(opts, random, now, s). maxCycles - cycles s)")
     (auto simp: running_def tick_def producerPhase_def consumerPhase_def generate_def
        blockProducer_def dropOldest_def emit_def Let_def)

declare loopStates.simps [simp del]

text \<open>Everything before the loop: the three announcements and the fresh variables.\<close>

definition start :: "StreamDemoOptions \<Rightarrow> (nat \<Rightarrow> int) \<Rightarrow> sim" where
  "start opts now =
     emit now Transform (msgTiming (processDelay (processingSpeed opts))) None
       (emit now Transform (msgSetup (processingSpeed opts)) None
          (emit now Transform (msgSimulating (enableBackpressure opts)) None
             \<lparr>cycles = 0, itemsGenerated = 0, itemsProcessed = 0, itemsDropped = 0,
              backpressureEvents = 0, buffer = [], results = [], emitted = [],
              draws = 0\<rparr>))"

text \<open>\<open>results.reduce((acc, val) => acc + val, 0)\<close>\<close>

definition resultSum :: "sim \<Rightarrow> int" where
  "resultSum s = foldl (+) 0 (results s)"

text \<open>Everything after the loop up to the \<open>return\<close>: the two closing events.\<close>

definition finish :: "StreamDemoOptions \<Rightarrow> (nat \<Rightarrow> int) \<Rightarrow> sim \<Rightarrow> sim" where
  "finish opts now s =
     emit now Complete
       (msgVerdict (enableBackpressure opts) (backpressureEvents s) (itemsDropped s)) None
       (emit now Complete (msgFinal (itemsGenerated s) (itemsProcessed s) (itemsDropped s))
          (Some [(''generated'', int (itemsGenerated s)),
                 (''processed'', int (itemsProcessed s)),
                 (''dropped'', int (itemsDropped s)),
                 (''sum'', resultSum s),
                 (''backpressureEvents'', int (backpressureEvents s))]) s)"

text \<open>The object of the \<open>return\<close> statement.\<close>

definition returned :: "sim \<Rightarrow> jsObject" where
  "returned s =
     [(''processed'', int (itemsProcessed s)), (''sum'', resultSum s),
      (''backpressureEvents'', int (backpressureEvents s))]"

text \<open>The state in which the run ends, with the complete log of the sink.\<close>

definition finalState :: "StreamDemoOptions \<Rightarrow> (nat \<Rightarrow> int) \<Rightarrow> (nat \<Rightarrow> int) \<Rightarrow> sim" where
  "finalState opts random now = finish opts now (loop opts random now (start opts now))"

text \<open>The run as its caller sees it: the returned object and the events delivered.\<close>

definition runRealTimeStreamDemo ::
  "StreamDemoOptions \<Rightarrow> (nat \<Rightarrow> int) \<Rightarrow> (nat \<Rightarrow> int) \<Rightarrow> jsObject \<times> StreamEvent list" where
  "runRealTimeStreamDemo opts random now =
     (returned (finalState opts random now), emitted (finalState opts random now))"

section \<open>Notions used in the proofs\<close>

text \<open>
  None of the following is part of the program. They are the invariants, the relation
  between two runs and the sample inputs that the theorems below are stated or proved with.
\<close>

subsection \<open>Invariants of the loop\<close>

text \<open>Every item generated is in the buffer, processed or dropped, and the buffer is within its limit.\<close>

definition balanced :: "sim \<Rightarrow> bool" where
  "balanced s \<longleftrightarrow>
     length (buffer s) + itemsProcessed s + itemsDropped s = itemsGenerated s
       \<and> length (buffer s) \<le> BUFFER_LIMIT"

text \<open>No event of the given type has been handed to the sink.\<close>

definition noneOfType :: "StreamEventType \<Rightarrow> sim \<Rightarrow> bool" where
  "noneOfType ty s \<longleftrightarrow> (\<forall>e \<in> set (emitted s). type e \<noteq> ty)"

text \<open>The state between two cycles when the consumer fires on every cycle.\<close>

definition drained :: "sim \<Rightarrow> bool" where
  "drained s \<longleftrightarrow> buffer s = [] \<and> backpressureEvents s = 0 \<and> itemsDropped s = 0"

text \<open>The \<open>k\<close>-th event of the log carries the \<open>k\<close>-th clock reading.\<close>

definition stamped :: "(nat \<Rightarrow> int) \<Rightarrow> sim \<Rightarrow> bool" where
  "stamped now s \<longleftrightarrow> map timestamp (emitted s) = map now [0..<length (emitted s)]"

subsection \<open>Two runs on different clocks\<close>

text \<open>An event without its \<open>timestamp\<close>.\<close>

definition payload :: "StreamEvent \<Rightarrow> StreamEventType \<times> string \<times> jsObject option" where
  "payload e = (type e, message e, data e)"

definition sameButTime :: "sim \<Rightarrow> sim \<Rightarrow> bool" where
  "sameButTime s t \<longleftrightarrow>
     cycles s = cycles t \<and> itemsGenerated s = itemsGenerated t
       \<and> itemsProcessed s = itemsProcessed t \<and> itemsDropped s = itemsDropped t
       \<and> backpressureEvents s = backpressureEvents t \<and> buffer s = buffer t
       \<and> results s = results t \<and> draws s = draws t
       \<and> map payload (emitted s) = map payload (emitted t)"

subsection \<open>The counters on their own\<close>

text \<open>
  The branches of a cycle depend only on the counters and on the length of the buffer,
  never on the values drawn or on the clock. \<open>counts\<close> projects a state onto these six
  numbers, and \<open>countTick\<close> is what \<open>tick\<close> does to them (lemma \<open>counts_tick\<close>), so that
  the counters of a whole run can be computed without choosing a random source
  (lemma \<open>counts_loop\<close>).
\<close>

type_synonym counts = "nat \<times> nat \<times> nat \<times> nat \<times> nat \<times> nat"

definition counts :: "sim \<Rightarrow> counts" where
  "counts s =
     (cycles s, itemsGenerated s, itemsProcessed s, itemsDropped s, backpressureEvents s,
      length (buffer s))"

fun countTick :: "bool \<Rightarrow> ProcessingSpeed \<Rightarrow> counts \<Rightarrow> counts" where
  "countTick bp sp (c, g, p, d, b, n) =
     (let c1 = c + 1;
          (g1, d1, b1, n1) =
            (if g < TOTAL_ITEMS \<and> c1 mod ceilTenth producerInterval = 0 then
               if bp then
                 if n < BUFFER_LIMIT then (g + 1, d, b, n + 1) else (g, d, b + 1, n)
               else
                 if n \<ge> BUFFER_LIMIT then (g + 1, d + 1, b, n) else (g + 1, d, b, n + 1)
             else (g, d, b, n))
      in if n1 > 0 \<and> c1 mod ceilTenth (processDelay sp) = 0
         then (c1, g1, p + 1, d1, b1, n1 - 1)
         else (c1, g1, p, d1, b1, n1))"

definition countRunning :: "counts \<Rightarrow> bool" where
  "countRunning k = (case k of (c, g, p, d, b, n) \<Rightarrow> c < maxCycles \<and> p < TOTAL_ITEMS)"

function countLoop :: "bool \<Rightarrow> ProcessingSpeed \<Rightarrow> counts \<Rightarrow> counts" where
  "countLoop bp sp k = (if countRunning k then countLoop bp sp (countTick bp sp k) else k)"
  by pat_completeness auto
termination
  by (relation "measure (\<lambda>(bp, sp, k). maxCycles - fst k)")
     (auto simp: countRunning_def Let_def split: prod.splits if_splits)

declare countLoop.simps [simp del]

subsection \<open>Sample inputs\<close>

text \<open>
  The options as the user interface builds them (its batch size is 10), a random source
  with values between 0 and 99, and two clocks a minute apart that advance by the 10 ms of
  one cycle.
\<close>

definition demoOptions :: "ProcessingSpeed \<Rightarrow> bool \<Rightarrow> StreamDemoOptions" where
  "demoOptions sp bp = \<lparr>processingSpeed = sp, enableBackpressure = bp, batchSize = 10\<rparr>"

definition sampleRandom :: "nat \<Rightarrow> int" where
  "sampleRandom k = int ((37 * k + 11) mod 100)"

definition sampleClock :: "nat \<Rightarrow> int" where
  "sampleClock k = 1700000000000 + 10 * int k"

definition laterClock :: "nat \<Rightarrow> int" where
  "laterClock k = 1700000060000 + 10 * int k"

section \<open>Properties of the embedding\<close>

subsection \<open>What the pieces of a cycle change\<close>

lemma emit_fields [simp]:
  "cycles (emit now ty msg dat s) = cycles s"
  "itemsGenerated (emit now ty msg dat s) = itemsGenerated s"
  "itemsProcessed (emit now ty msg dat s) = itemsProcessed s"
  "itemsDropped (emit now ty msg dat s) = itemsDropped s"
  "backpressureEvents (emit now ty msg dat s) = backpressureEvents s"
  "buffer (emit now ty msg dat s) = buffer s"
  "results (emit now ty msg dat s) = results s"
  "draws (emit now ty msg dat s) = draws s"
  by (simp_all add: emit_def)

lemma emit_emitted:
  "emitted (emit now ty msg dat s) =
     emitted s @ [\<lparr>type = ty, message = msg, data = dat, timestamp = now (length (emitted s))\<rparr>]"
  by (simp add: emit_def)

lemma cycles_producerPhase [simp]: "cycles (producerPhase opts random now s) = cycles s"
  by (simp add: producerPhase_def generate_def blockProducer_def dropOldest_def Let_def)

lemma cycles_consumerPhase [simp]: "cycles (consumerPhase opts now s) = cycles s"
  by (simp add: consumerPhase_def Let_def)

lemma cycles_tick [simp]: "cycles (tick opts random now s) = Suc (cycles s)"
  by (simp add: tick_def)

subsection \<open>Invariants carry through the loop\<close>

lemma loop_invariant:
  assumes "P s" and "\<And>t. P t \<Longrightarrow> running t \<Longrightarrow> P (tick opts random now t)"
  shows "P (loop opts random now s)"
  using assms
proof (induction opts random now s rule: loop.induct)
  case (1 opts random now s)
  show ?case
  proof (cases "running s")
    case True
    then have "P (tick opts random now s)" using "1.prems" by blast
    then have "P (loop opts random now (tick opts random now s))"
      using "1.IH" True "1.prems"(2) by blast
    then show ?thesis using True by (simp add: loop.simps [of opts random now s])
  next
    case False
    then show ?thesis using "1.prems"(1) by (simp add: loop.simps [of opts random now s])
  qed
qed

lemma loopStates_invariant:
  assumes "P s" and "\<And>t. P t \<Longrightarrow> running t \<Longrightarrow> P (tick opts random now t)"
  shows "\<forall>t \<in> set (loopStates opts random now s). P t"
  using assms
proof (induction opts random now s rule: loopStates.induct)
  case (1 opts random now s)
  show ?case
  proof (cases "running s")
    case True
    then have step: "P (tick opts random now s)" using "1.prems" by blast
    then have "\<forall>t \<in> set (loopStates opts random now (tick opts random now s)). P t"
      using "1.IH" True "1.prems"(2) by blast
    then show ?thesis using True step by (simp add: loopStates.simps [of opts random now s])
  next
    case False
    then show ?thesis by (simp add: loopStates.simps [of opts random now s])
  qed
qed

lemma loop_last: "loop opts random now s = last (s # loopStates opts random now s)"
proof (induction opts random now s rule: loop.induct)
  case (1 opts random now s)
  show ?case
  proof (cases "running s")
    case True
    then show ?thesis
      using "1.IH" by (simp add: loop.simps [of opts random now s] loopStates.simps [of opts random now s])
  next
    case False
    then show ?thesis by (simp add: loop.simps [of opts random now s] loopStates.simps [of opts random now s])
  qed
qed

subsection \<open>The balance of the buffer\<close>

lemma balanced_producerPhase: "balanced s \<Longrightarrow> balanced (producerPhase opts random now s)"
  by (auto simp: balanced_def producerPhase_def generate_def blockProducer_def dropOldest_def
      Let_def BUFFER_LIMIT_def)

lemma balanced_consumerPhase: "balanced s \<Longrightarrow> balanced (consumerPhase opts now s)"
  by (cases "buffer s") (auto simp: balanced_def consumerPhase_def shouldConsume_def Let_def)

lemma balanced_tick: "balanced s \<Longrightarrow> balanced (tick opts random now s)"
  unfolding tick_def
  by (rule balanced_consumerPhase, rule balanced_producerPhase) (simp add: balanced_def)

lemma balanced_start: "balanced (start opts now)"
  by (simp add: balanced_def start_def)

subsection \<open>The producer stops at the target\<close>

lemma generated_producerPhase:
  "itemsGenerated s \<le> TOTAL_ITEMS \<Longrightarrow> itemsGenerated (producerPhase opts random now s) \<le> TOTAL_ITEMS"
  by (auto simp: producerPhase_def shouldGenerate_def generate_def blockProducer_def
      dropOldest_def Let_def)

lemma generated_consumerPhase [simp]:
  "itemsGenerated (consumerPhase opts now s) = itemsGenerated s"
  by (simp add: consumerPhase_def Let_def)

lemma generated_tick:
  "itemsGenerated s \<le> TOTAL_ITEMS \<Longrightarrow> itemsGenerated (tick opts random now s) \<le> TOTAL_ITEMS"
  unfolding tick_def using generated_producerPhase [of "s\<lparr>cycles := cycles s + 1\<rparr>"] by simp

lemma producerPhase_idle:
  "TOTAL_ITEMS \<le> itemsGenerated s \<Longrightarrow> producerPhase opts random now s = s"
  by (simp add: producerPhase_def shouldGenerate_def)

subsection \<open>Each policy leaves the other one's counter and event alone\<close>

lemma dropped_tick:
  "enableBackpressure opts \<Longrightarrow> itemsDropped (tick opts random now s) = itemsDropped s"
  by (simp add: tick_def producerPhase_def consumerPhase_def generate_def blockProducer_def Let_def)

lemma noError_tick:
  "enableBackpressure opts \<Longrightarrow> noneOfType Error s \<Longrightarrow> noneOfType Error (tick opts random now s)"
  by (auto simp: noneOfType_def tick_def producerPhase_def consumerPhase_def generate_def
      blockProducer_def emit_emitted Let_def)

lemma blocks_tick:
  "\<not> enableBackpressure opts \<Longrightarrow> backpressureEvents (tick opts random now s) = backpressureEvents s"
  by (simp add: tick_def producerPhase_def consumerPhase_def generate_def dropOldest_def Let_def)

lemma noBackpressure_tick:
  "\<not> enableBackpressure opts \<Longrightarrow> noneOfType Backpressure s
     \<Longrightarrow> noneOfType Backpressure (tick opts random now s)"
  by (auto simp: noneOfType_def tick_def producerPhase_def consumerPhase_def generate_def
      dropOldest_def emit_emitted Let_def)

subsection \<open>Before and after the loop\<close>

lemma start_emitted_types: "\<forall>e \<in> set (emitted (start opts now)). type e = Transform"
  by (simp add: start_def emit_emitted)

lemma start_fields [simp]:
  "cycles (start opts now) = 0"
  "itemsGenerated (start opts now) = 0"
  "itemsProcessed (start opts now) = 0"
  "itemsDropped (start opts now) = 0"
  "backpressureEvents (start opts now) = 0"
  "buffer (start opts now) = []"
  "results (start opts now) = []"
  "draws (start opts now) = 0"
  by (simp_all add: start_def)

lemma finish_fields [simp]:
  "cycles (finish opts now s) = cycles s"
  "itemsGenerated (finish opts now s) = itemsGenerated s"
  "itemsProcessed (finish opts now s) = itemsProcessed s"
  "itemsDropped (finish opts now s) = itemsDropped s"
  "backpressureEvents (finish opts now s) = backpressureEvents s"
  "buffer (finish opts now s) = buffer s"
  "results (finish opts now s) = results s"
  "draws (finish opts now s) = draws s"
  by (simp_all add: finish_def)

lemma noneOfType_finish:
  "ty \<noteq> Complete \<Longrightarrow> noneOfType ty s \<Longrightarrow> noneOfType ty (finish opts now s)"
  by (auto simp: noneOfType_def finish_def emit_emitted)

lemma noneOfType_start: "ty \<noteq> Transform \<Longrightarrow> noneOfType ty (start opts now)"
  using start_emitted_types [of opts now] by (auto simp: noneOfType_def)

subsection \<open>The counters evolve on their own\<close>

lemma counts_tick:
  "counts (tick opts random now s) =
     countTick (enableBackpressure opts) (processingSpeed opts) (counts s)"
  by (cases "buffer s")
     (auto simp: counts_def tick_def producerPhase_def consumerPhase_def shouldGenerate_def
        shouldConsume_def generate_def blockProducer_def dropOldest_def Let_def BUFFER_LIMIT_def)

lemma countRunning_counts: "countRunning (counts s) = running s"
  by (simp add: countRunning_def counts_def running_def)

lemma counts_loop:
  "counts (loop opts random now s) =
     countLoop (enableBackpressure opts) (processingSpeed opts) (counts s)"
proof (induction opts random now s rule: loop.induct)
  case (1 opts random now s)
  show ?case
  proof (cases "running s")
    case True
    then show ?thesis
      using "1.IH"
      by (simp add: loop.simps [of opts random now s] counts_tick countRunning_counts
          countLoop.simps [of "enableBackpressure opts" "processingSpeed opts" "counts s"])
  next
    case False
    then show ?thesis
      by (simp add: loop.simps [of opts random now s] countRunning_counts
          countLoop.simps [of "enableBackpressure opts" "processingSpeed opts" "counts s"])
  qed
qed

lemma counts_start: "counts (start opts now) = (0, 0, 0, 0, 0, 0)"
  by (simp add: counts_def)

lemma countLoop_normal_on: "countLoop True Normal (0, 0, 0, 0, 0, 0) = (60, 16, 12, 0, 4, 4)"
  by code_simp

lemma countLoop_slow_on: "countLoop True Slow (0, 0, 0, 0, 0, 0) = (60, 7, 3, 0, 13, 4)"
  by code_simp

lemma countLoop_normal_off: "countLoop False Normal (0, 0, 0, 0, 0, 0) = (60, 20, 12, 4, 0, 4)"
  by code_simp

lemma countLoop_slow_off: "countLoop False Slow (0, 0, 0, 0, 0, 0) = (60, 20, 3, 13, 0, 4)"
  by code_simp

subsection \<open>The clock only shows in the timestamps\<close>

lemma sameButTime_emit:
  "sameButTime s t \<Longrightarrow> sameButTime (emit now1 ty msg dat s) (emit now2 ty msg dat t)"
  by (simp add: sameButTime_def emit_emitted payload_def)

lemma sameButTime_generate:
  "sameButTime s t \<Longrightarrow> sameButTime (generate random now1 msg s) (generate random now2 msg t)"
  unfolding generate_def Let_def
  by (auto simp: sameButTime_def emit_emitted payload_def)

lemma sameButTime_blockProducer:
  "sameButTime s t \<Longrightarrow> sameButTime (blockProducer now1 s) (blockProducer now2 t)"
  unfolding blockProducer_def Let_def
  by (auto simp: sameButTime_def emit_emitted payload_def)

lemma sameButTime_dropOldest:
  "sameButTime s t \<Longrightarrow> sameButTime (dropOldest now1 s) (dropOldest now2 t)"
  unfolding dropOldest_def Let_def
  by (auto simp: sameButTime_def emit_emitted payload_def)

lemma sameButTime_producerPhase:
  assumes "sameButTime s t"
  shows "sameButTime (producerPhase opts random now1 s) (producerPhase opts random now2 t)"
proof -
  have g: "shouldGenerate s = shouldGenerate t"
    using assms by (simp add: sameButTime_def shouldGenerate_def)
  have b: "buffer s = buffer t"
    using assms by (simp add: sameButTime_def)
  show ?thesis
    unfolding producerPhase_def g b
    using assms
    by (simp add: sameButTime_generate sameButTime_blockProducer sameButTime_dropOldest)
qed

lemma sameButTime_consumerPhase:
  assumes "sameButTime s t"
  shows "sameButTime (consumerPhase opts now1 s) (consumerPhase opts now2 t)"
proof -
  have c: "shouldConsume opts s = shouldConsume opts t"
    using assms by (simp add: sameButTime_def shouldConsume_def)
  show ?thesis
    unfolding consumerPhase_def c Let_def
    using assms by (auto simp: sameButTime_def emit_emitted payload_def)
qed

lemma sameButTime_tick:
  assumes "sameButTime s t"
  shows "sameButTime (tick opts random now1 s) (tick opts random now2 t)"
proof -
  have "sameButTime (s\<lparr>cycles := cycles s + 1\<rparr>) (t\<lparr>cycles := cycles t + 1\<rparr>)"
    using assms by (simp add: sameButTime_def)
  then show ?thesis
    unfolding tick_def by (intro sameButTime_consumerPhase sameButTime_producerPhase)
qed

lemma sameButTime_loop:
  "sameButTime s t \<Longrightarrow> sameButTime (loop opts random now1 s) (loop opts random now2 t)"
proof (induction opts random now1 s arbitrary: t rule: loop.induct)
  case (1 opts random now1 s)
  have r: "running s = running t"
    using "1.prems" by (simp add: sameButTime_def running_def)
  show ?case
  proof (cases "running s")
    case True
    then show ?thesis
      using "1.IH" [OF True sameButTime_tick [OF "1.prems"]] r
      by (simp add: loop.simps [of opts random now1 s] loop.simps [of opts random now2 t])
  next
    case False
    then show ?thesis
      using "1.prems" r
      by (simp add: loop.simps [of opts random now1 s] loop.simps [of opts random now2 t])
  qed
qed

lemma sameButTime_start: "sameButTime (start opts now1) (start opts now2)"
  unfolding start_def
  by (intro sameButTime_emit) (simp add: sameButTime_def)

lemma sameButTime_finish:
  assumes "sameButTime s t"
  shows "sameButTime (finish opts now1 s) (finish opts now2 t)"
proof -
  have "itemsGenerated s = itemsGenerated t" "itemsProcessed s = itemsProcessed t"
    "itemsDropped s = itemsDropped t" "backpressureEvents s = backpressureEvents t"
    "resultSum s = resultSum t"
    using assms by (simp_all add: sameButTime_def resultSum_def)
  then show ?thesis
    unfolding finish_def using assms by (simp add: sameButTime_emit)
qed

lemma sameButTime_finalState:
  "sameButTime (finalState opts random now1) (finalState opts random now2)"
  unfolding finalState_def
  by (intro sameButTime_finish sameButTime_loop sameButTime_start)

subsection \<open>A consumer that fires on every cycle\<close>

lemma drained_tick:
  assumes "processingSpeed opts = Fast" and "drained s"
  shows "drained (tick opts random now s)"
  using assms
  by (auto simp: drained_def tick_def producerPhase_def consumerPhase_def shouldConsume_def
      generate_def ceilTenth_def BUFFER_LIMIT_def Let_def)

lemma drained_midway:
  assumes "drained s"
  shows "length (buffer (producerPhase opts random now (s\<lparr>cycles := cycles s + 1\<rparr>))) \<le> 1"
  using assms
  by (auto simp: drained_def producerPhase_def generate_def BUFFER_LIMIT_def Let_def)

subsection \<open>The length of a run\<close>

lemma loopStates_length: "length (loopStates opts random now s) \<le> maxCycles - cycles s"
proof (induction opts random now s rule: loopStates.induct)
  case (1 opts random now s)
  show ?case
  proof (cases "running s")
    case True
    then show ?thesis
      using "1.IH" by (auto simp: loopStates.simps [of opts random now s] running_def)
  next
    case False
    then show ?thesis by (simp add: loopStates.simps [of opts random now s])
  qed
qed

lemma loop_stops: "\<not> running (loop opts random now s)"
proof (induction opts random now s rule: loop.induct)
  case (1 opts random now s)
  then show ?case by (cases "running s") (simp_all add: loop.simps [of opts random now s])
qed

lemma loop_cycles:
  "cycles (loop opts random now s) = cycles s + length (loopStates opts random now s)"
proof (induction opts random now s rule: loop.induct)
  case (1 opts random now s)
  then show ?case
    by (cases "running s")
       (simp_all add: loop.simps [of opts random now s] loopStates.simps [of opts random now s])
qed

lemma loopStates_stopped: "\<not> running s \<Longrightarrow> loopStates opts random now s = []"
  by (subst loopStates.simps) simp

lemma loopStates_running:
  "running s \<Longrightarrow> loopStates opts random now s =
     tick opts random now s # loopStates opts random now (tick opts random now s)"
  by (subst loopStates.simps) simp

lemma loopStates_nth_running:
  "Suc i < length (loopStates opts random now s) \<Longrightarrow> running (loopStates opts random now s ! i)"
proof (induction opts random now s arbitrary: i rule: loopStates.induct)
  case (1 opts random now s)
  show ?case
  proof (cases "running s")
    case True
    let ?rest = "loopStates opts random now (tick opts random now s)"
    have unfold: "loopStates opts random now s = tick opts random now s # ?rest"
      using True by (rule loopStates_running)
    show ?thesis
    proof (cases i)
      case 0
      have "?rest \<noteq> []" using "1.prems" unfold 0 by auto
      then have "running (tick opts random now s)"
        using loopStates_stopped [of "tick opts random now s" opts random now] by blast
      then show ?thesis using unfold 0 by simp
    next
      case (Suc j)
      then have "Suc j < length ?rest" using "1.prems" unfold by simp
      then have "running (?rest ! j)" using "1.IH" [OF True] by blast
      then show ?thesis using unfold Suc by simp
    qed
  next
    case False
    then show ?thesis using "1.prems" by (simp add: loopStates_stopped)
  qed
qed

lemma loopStates_butlast:
  assumes "t \<in> set (butlast (loopStates opts random now s))"
  shows "running t"
proof -
  let ?xs = "loopStates opts random now s"
  obtain i where i: "i < length (butlast ?xs)" and t: "butlast ?xs ! i = t"
    using assms by (auto simp: in_set_conv_nth)
  have "Suc i < length ?xs" using i by simp
  moreover have "?xs ! i = t" using i t by (simp add: nth_butlast)
  ultimately show ?thesis using loopStates_nth_running by blast
qed

subsection \<open>The counters of a whole run\<close>

lemma countLoop_fast_on: "countLoop True Fast (0, 0, 0, 0, 0, 0) = (60, 20, 20, 0, 0, 0)"
  by code_simp

lemma countLoop_fast_off: "countLoop False Fast (0, 0, 0, 0, 0, 0) = (60, 20, 20, 0, 0, 0)"
  by code_simp

lemma counts_run:
  "counts (loop opts random now (start opts now)) =
     countLoop (enableBackpressure opts) (processingSpeed opts) (0, 0, 0, 0, 0, 0)"
  by (simp add: counts_loop counts_start)

lemma counts_finish [simp]: "counts (finish opts now s) = counts s"
  by (simp add: counts_def)

lemma counts_finalState:
  "counts (finalState opts random now) =
     countLoop (enableBackpressure opts) (processingSpeed opts) (0, 0, 0, 0, 0, 0)"
  by (simp add: finalState_def counts_run)

lemma cycles_finalState: "cycles (finalState opts random now) = 60"
proof -
  have "fst (countLoop bp sp (0, 0, 0, 0, 0, 0)) = 60" for bp sp
    by (cases sp; cases bp)
       (simp_all add: countLoop_slow_on countLoop_slow_off countLoop_normal_on
          countLoop_normal_off countLoop_fast_on countLoop_fast_off)
  then have "fst (counts (finalState opts random now)) = 60"
    by (simp add: counts_finalState)
  then show ?thesis by (simp add: counts_def)
qed

lemma length_loopStates_start: "length (loopStates opts random now (start opts now)) = 60"
  using cycles_finalState [of opts random now] loop_cycles [of opts random now "start opts now"]
  by (simp add: finalState_def)

subsection \<open>The closing events and the first event\<close>

lemma emitted_finish:
  "emitted (finish opts now s) =
     emitted s @
       [\<lparr>type = Complete,
         message = msgFinal (itemsGenerated s) (itemsProcessed s) (itemsDropped s),
         data = Some [(''generated'', int (itemsGenerated s)),
                      (''processed'', int (itemsProcessed s)),
                      (''dropped'', int (itemsDropped s)),
                      (''sum'', resultSum s),
                      (''backpressureEvents'', int (backpressureEvents s))],
         timestamp = now (length (emitted s))\<rparr>,
        \<lparr>type = Complete,
         message = msgVerdict (enableBackpressure opts) (backpressureEvents s) (itemsDropped s),
         data = None,
         timestamp = now (Suc (length (emitted s)))\<rparr>]"
  by (simp add: finish_def emit_emitted)

lemma resultSum_finish [simp]: "resultSum (finish opts now s) = resultSum s"
  by (simp add: resultSum_def)

lemma buffer_producerPhase_backpressure:
  "enableBackpressure opts \<Longrightarrow>
     take (length (buffer s)) (buffer (producerPhase opts random now s)) = buffer s"
  by (simp add: producerPhase_def generate_def blockProducer_def Let_def)

lemma first_event_emit:
  "emitted s \<noteq> [] \<Longrightarrow>
     emitted (emit now ty msg dat s) \<noteq> [] \<and> hd (emitted (emit now ty msg dat s)) = hd (emitted s)"
  by (simp add: emit_emitted)

lemma first_event_tick:
  "emitted s \<noteq> [] \<Longrightarrow>
     emitted (tick opts random now s) \<noteq> [] \<and> hd (emitted (tick opts random now s)) = hd (emitted s)"
  by (simp add: tick_def producerPhase_def consumerPhase_def generate_def blockProducer_def
      dropOldest_def emit_emitted Let_def)

lemma first_event_loop:
  assumes "emitted s \<noteq> []"
  shows "emitted (loop opts random now s) \<noteq> []
    \<and> hd (emitted (loop opts random now s)) = hd (emitted s)"
  by (rule loop_invariant [where P = "\<lambda>t. emitted t \<noteq> [] \<and> hd (emitted t) = hd (emitted s)"])
     (use assms first_event_tick in auto)

lemma first_event_start:
  "emitted (start opts now) \<noteq> [] \<and> timestamp (hd (emitted (start opts now))) = now 0"
  by (simp add: start_def emit_emitted)

lemma first_event_finalState:
  "emitted (finalState opts random now) \<noteq> []
     \<and> timestamp (hd (emitted (finalState opts random now))) = now 0"
proof -
  have "emitted (loop opts random now (start opts now)) \<noteq> []
      \<and> hd (emitted (loop opts random now (start opts now))) = hd (emitted (start opts now))"
    using first_event_start [of opts now] by (intro first_event_loop) simp
  then show ?thesis
    using first_event_start [of opts now] by (simp add: finalState_def emitted_finish)
qed

subsection \<open>Timestamps are the successive clock readings\<close>

lemma stamped_emit: "stamped now s \<Longrightarrow> stamped now (emit now ty msg dat s)"
  by (simp add: stamped_def emit_emitted)

lemma stamped_update:
  "stamped now (s\<lparr>cycles := c\<rparr>) = stamped now s"
  "stamped now (s\<lparr>itemsGenerated := g\<rparr>) = stamped now s"
  "stamped now (s\<lparr>itemsProcessed := p\<rparr>) = stamped now s"
  "stamped now (s\<lparr>itemsDropped := d\<rparr>) = stamped now s"
  "stamped now (s\<lparr>backpressureEvents := b\<rparr>) = stamped now s"
  "stamped now (s\<lparr>buffer := xs\<rparr>) = stamped now s"
  "stamped now (s\<lparr>results := ys\<rparr>) = stamped now s"
  "stamped now (s\<lparr>draws := k\<rparr>) = stamped now s"
  by (simp_all add: stamped_def)

lemma stamped_tick: "stamped now s \<Longrightarrow> stamped now (tick opts random now s)"
  by (simp add: tick_def producerPhase_def consumerPhase_def generate_def blockProducer_def
      dropOldest_def Let_def stamped_emit stamped_update)

lemma stamped_start: "stamped now (start opts now)"
  unfolding start_def by (intro stamped_emit) (simp add: stamped_def)

lemma stamped_finish: "stamped now s \<Longrightarrow> stamped now (finish opts now s)"
  by (simp add: finish_def stamped_emit)

lemma stamped_finalState: "stamped now (finalState opts random now)"
  unfolding finalState_def
  by (intro stamped_finish loop_invariant [where P = "stamped now"] stamped_start stamped_tick)

subsection \<open>The speed classes, and invariants over a whole run\<close>

lemma speed_under_pressure:
  "processDelay sp > producerInterval \<longleftrightarrow> sp = Normal \<or> sp = Slow"
  by (cases sp) (simp_all add: producerInterval_def)

lemma speed_no_pressure: "processDelay sp < producerInterval \<longleftrightarrow> sp = Fast"
  by (cases sp) (simp_all add: producerInterval_def)

lemma run_states_invariant:
  assumes "P (start opts now)"
    and "\<And>t. P t \<Longrightarrow> running t \<Longrightarrow> P (tick opts random now t)"
    and "\<And>t. P t \<Longrightarrow> P (finish opts now t)"
  shows "\<forall>t \<in> set (start opts now # loopStates opts random now (start opts now)
            @ [finalState opts random now]). P t"
proof -
  have "\<forall>t \<in> set (loopStates opts random now (start opts now)). P t"
    using assms(1,2) by (rule loopStates_invariant)
  moreover have "P (loop opts random now (start opts now))"
    using assms(1,2) by (rule loop_invariant)
  then have "P (finalState opts random now)"
    unfolding finalState_def by (rule assms(3))
  ultimately show ?thesis using assms(1) by simp
qed

lemma balanced_finish: "balanced s \<Longrightarrow> balanced (finish opts now s)"
  by (simp add: balanced_def)

lemma drained_start: "drained (start opts now)"
  by (simp add: drained_def)

lemma drained_finish: "drained s \<Longrightarrow> drained (finish opts now s)"
  by (simp add: drained_def)

section \<open>The claims\<close>

text \<open>
  Claim C1. With backpressure enabled, whatever the processing speed, the random source
  and the clock, the run drops nothing: the dropped count is 0 when the run ends and after
  every cycle, the sink never receives an event of type \<open>error\<close> (the overflow branch sends
  one each time it is taken), and the producer phase only ever appends to the buffer, so
  that items leave it in the consumer phase alone.
\<close>

theorem backpressure_never_drops:
  assumes "enableBackpressure opts"
  shows "itemsDropped (finalState opts random now) = 0
    \<and> (\<forall>t \<in> set (loopStates opts random now (start opts now)). itemsDropped t = 0)
    \<and> (\<forall>e \<in> set (snd (runRealTimeStreamDemo opts random now)). type e \<noteq> Error)
    \<and> (\<forall>s. take (length (buffer s)) (buffer (producerPhase opts random now s)) = buffer s)"
proof -
  let ?P = "\<lambda>t. itemsDropped t = 0 \<and> noneOfType Error t"
  have all: "\<forall>t \<in> set (start opts now # loopStates opts random now (start opts now)
            @ [finalState opts random now]). ?P t"
  proof (rule run_states_invariant)
    show "?P (start opts now)" by (simp add: noneOfType_start)
  next
    fix t assume "?P t"
    then show "?P (tick opts random now t)"
      using assms by (simp add: dropped_tick noError_tick)
  next
    fix t assume "?P t"
    then show "?P (finish opts now t)" by (simp add: noneOfType_finish)
  qed
  then have "?P (finalState opts random now)" by simp
  moreover have "\<forall>t \<in> set (loopStates opts random now (start opts now)). itemsDropped t = 0"
    using all by simp
  ultimately show ?thesis
    using assms
    by (simp add: runRealTimeStreamDemo_def noneOfType_def buffer_producerPhase_backpressure)
qed

text \<open>A run at speed \<open>slow\<close> with backpressure enabled: its last cycle, its end and its first event.\<close>

theorem backpressure_never_drops_witness:
  "enableBackpressure (demoOptions Slow True)
    \<and> length (loopStates (demoOptions Slow True) sampleRandom sampleClock
                 (start (demoOptions Slow True) sampleClock)) = 60
    \<and> itemsDropped (loopStates (demoOptions Slow True) sampleRandom sampleClock
                 (start (demoOptions Slow True) sampleClock) ! 59) = 0
    \<and> itemsDropped (finalState (demoOptions Slow True) sampleRandom sampleClock) = 0
    \<and> type (hd (snd (runRealTimeStreamDemo (demoOptions Slow True) sampleRandom sampleClock)))
        \<noteq> Error"
proof -
  let ?states = "loopStates (demoOptions Slow True) sampleRandom sampleClock
                 (start (demoOptions Slow True) sampleClock)"
  let ?events = "snd (runRealTimeStreamDemo (demoOptions Slow True) sampleRandom sampleClock)"
  have on: "enableBackpressure (demoOptions Slow True)"
    by (simp add: demoOptions_def)
  have len: "length ?states = 60"
    by (rule length_loopStates_start)
  then have last: "?states ! 59 \<in> set ?states"
    by (simp add: nth_mem)
  have "?events \<noteq> []"
    using first_event_finalState [of "demoOptions Slow True" sampleRandom sampleClock]
    by (simp add: runRealTimeStreamDemo_def)
  then have first: "hd ?events \<in> set ?events"
    by simp
  show ?thesis
    using backpressure_never_drops [OF on, of sampleRandom sampleClock] on len last first
    by blast
qed

text \<open>
  Claim C2. In the state before the first cycle, after every cycle and at the end of the
  run, under either policy, the buffer holds exactly the items generated and neither
  processed nor dropped, the processed and dropped items together never outnumber the
  generated ones, and the buffer holds at most 5 items.
\<close>

theorem buffer_occupancy_invariant:
  "\<forall>t \<in> set (start opts now # loopStates opts random now (start opts now)
            @ [finalState opts random now]).
      int (length (buffer t))
          = int (itemsGenerated t) - int (itemsProcessed t) - int (itemsDropped t)
        \<and> itemsProcessed t + itemsDropped t \<le> itemsGenerated t
        \<and> length (buffer t) \<le> 5"
proof -
  have "\<forall>t \<in> set (start opts now # loopStates opts random now (start opts now)
            @ [finalState opts random now]). balanced t"
    by (rule run_states_invariant) (simp_all add: balanced_start balanced_tick balanced_finish)
  then show ?thesis
    unfolding balanced_def BUFFER_LIMIT_def by (intro ballI) force
qed

text \<open>The end of the run at speed \<open>normal\<close> without backpressure: four items are left in the buffer.\<close>

theorem buffer_occupancy_invariant_witness:
  "length (buffer (finalState (demoOptions Normal False) sampleRandom sampleClock)) = 4
    \<and> int (length (buffer (finalState (demoOptions Normal False) sampleRandom sampleClock)))
        = int (itemsGenerated (finalState (demoOptions Normal False) sampleRandom sampleClock))
          - int (itemsProcessed (finalState (demoOptions Normal False) sampleRandom sampleClock))
          - int (itemsDropped (finalState (demoOptions Normal False) sampleRandom sampleClock))
    \<and> itemsProcessed (finalState (demoOptions Normal False) sampleRandom sampleClock)
          + itemsDropped (finalState (demoOptions Normal False) sampleRandom sampleClock)
        \<le> itemsGenerated (finalState (demoOptions Normal False) sampleRandom sampleClock)
    \<and> length (buffer (finalState (demoOptions Normal False) sampleRandom sampleClock)) \<le> 5"
proof -
  have "counts (finalState (demoOptions Normal False) sampleRandom sampleClock)
      = (60, 20, 12, 4, 0, 4)"
    by (simp add: counts_finalState demoOptions_def countLoop_normal_off)
  then have "length (buffer (finalState (demoOptions Normal False) sampleRandom sampleClock)) = 4"
    by (simp add: counts_def)
  then show ?thesis
    using buffer_occupancy_invariant [of "demoOptions Normal False" sampleClock sampleRandom]
    by simp
qed

text \<open>
  Claim C3 says that a run with backpressure enabled and a consumer delay above the
  producer interval ends with all 20 items processed. It does not: the consumer takes
  one item on each of its firings, every 5th cycle at speed \<open>normal\<close> and every 20th at
  speed \<open>slow\<close>, and the loop stops after 60 cycles. At speed \<open>normal\<close> 12 items have been
  processed by then.
\<close>

theorem scenarioA_counterexample:
  "itemsProcessed (finalState (demoOptions Normal True) sampleRandom sampleClock) = 12
    \<and> \<not> (backpressureEvents (finalState (demoOptions Normal True) sampleRandom sampleClock) > 0
          \<and> itemsDropped (finalState (demoOptions Normal True) sampleRandom sampleClock) = 0
          \<and> itemsProcessed (finalState (demoOptions Normal True) sampleRandom sampleClock) = 20)"
proof -
  have "counts (finalState (demoOptions Normal True) sampleRandom sampleClock)
      = (60, 16, 12, 0, 4, 4)"
    by (simp add: counts_finalState demoOptions_def countLoop_normal_on)
  then show ?thesis by (simp add: counts_def)
qed

text \<open>
  Claim C3, amended. With backpressure enabled and a consumer delay above the producer
  interval, the run uses up its 60 cycles and ends with at least one backpressure event,
  nothing dropped, and one item processed per consumer firing: 60 divided by the
  consumer's cadence, that is 12 at speed \<open>normal\<close> and 3 at speed \<open>slow\<close>, which is below the
  target of 20.
\<close>

theorem scenarioA_stops_at_budget:
  assumes "enableBackpressure opts"
    and "processDelay (processingSpeed opts) > producerInterval"
  shows "backpressureEvents (finalState opts random now) > 0
    \<and> itemsDropped (finalState opts random now) = 0
    \<and> cycles (finalState opts random now) = 60
    \<and> itemsProcessed (finalState opts random now)
        = 60 div ceilTenth (processDelay (processingSpeed opts))
    \<and> itemsProcessed (finalState opts random now) < 20"
proof -
  consider "processingSpeed opts = Normal" | "processingSpeed opts = Slow"
    using assms(2) by (auto simp: speed_under_pressure)
  then show ?thesis
  proof cases
    case 1
    then have "counts (finalState opts random now) = (60, 16, 12, 0, 4, 4)"
      using assms(1) by (simp add: counts_finalState countLoop_normal_on)
    then show ?thesis using 1 by (simp add: counts_def ceilTenth_def)
  next
    case 2
    then have "counts (finalState opts random now) = (60, 7, 3, 0, 13, 4)"
      using assms(1) by (simp add: counts_finalState countLoop_slow_on)
    then show ?thesis using 2 by (simp add: counts_def ceilTenth_def)
  qed
qed

text \<open>At speed \<open>slow\<close> three items are processed.\<close>

theorem scenarioA_stops_at_budget_witness:
  "enableBackpressure (demoOptions Slow True)
    \<and> processDelay (processingSpeed (demoOptions Slow True)) > producerInterval
    \<and> backpressureEvents (finalState (demoOptions Slow True) sampleRandom sampleClock) > 0
    \<and> itemsDropped (finalState (demoOptions Slow True) sampleRandom sampleClock) = 0
    \<and> cycles (finalState (demoOptions Slow True) sampleRandom sampleClock) = 60
    \<and> itemsProcessed (finalState (demoOptions Slow True) sampleRandom sampleClock) = 3"
  using scenarioA_stops_at_budget [of "demoOptions Slow True" sampleRandom sampleClock]
  by (simp add: demoOptions_def producerInterval_def ceilTenth_def)

text \<open>
  Claim C4. With backpressure disabled and a consumer delay above the producer interval,
  the run ends with at least one item dropped, exactly 20 items generated and at most 20
  processed.
\<close>

theorem scenarioB_drops:
  assumes "\<not> enableBackpressure opts"
    and "processDelay (processingSpeed opts) > producerInterval"
  shows "itemsDropped (finalState opts random now) > 0
    \<and> itemsGenerated (finalState opts random now) = 20
    \<and> itemsProcessed (finalState opts random now) \<le> 20"
proof -
  consider "processingSpeed opts = Normal" | "processingSpeed opts = Slow"
    using assms(2) by (auto simp: speed_under_pressure)
  then show ?thesis
  proof cases
    case 1
    then have "counts (finalState opts random now) = (60, 20, 12, 4, 0, 4)"
      using assms(1) by (simp add: counts_finalState countLoop_normal_off)
    then show ?thesis by (simp add: counts_def)
  next
    case 2
    then have "counts (finalState opts random now) = (60, 20, 3, 13, 0, 4)"
      using assms(1) by (simp add: counts_finalState countLoop_slow_off)
    then show ?thesis by (simp add: counts_def)
  qed
qed

text \<open>The run at speed \<open>normal\<close>.\<close>

theorem scenarioB_drops_witness:
  "\<not> enableBackpressure (demoOptions Normal False)
    \<and> processDelay (processingSpeed (demoOptions Normal False)) > producerInterval
    \<and> itemsDropped (finalState (demoOptions Normal False) sampleRandom sampleClock) > 0
    \<and> itemsGenerated (finalState (demoOptions Normal False) sampleRandom sampleClock) = 20
    \<and> itemsProcessed (finalState (demoOptions Normal False) sampleRandom sampleClock) \<le> 20"
  using scenarioB_drops [of "demoOptions Normal False" sampleRandom sampleClock]
  by (simp add: demoOptions_def producerInterval_def)

text \<open>
  Claim C5. When the consumer delay is below the producer interval (speed \<open>fast\<close>), the
  run ends without a backpressure event and without a drop, whatever the flag, because the
  buffer never fills: it holds fewer than 5 items between cycles and also in the middle of
  every cycle, after the producer phase and before the consumer phase.
\<close>

theorem fast_consumer_never_fills:
  assumes "processDelay (processingSpeed opts) < producerInterval"
  shows "backpressureEvents (finalState opts random now) = 0
    \<and> itemsDropped (finalState opts random now) = 0
    \<and> (\<forall>t \<in> set (start opts now # loopStates opts random now (start opts now)
              @ [finalState opts random now]).
          length (buffer t) < BUFFER_LIMIT
            \<and> length (buffer (producerPhase opts random now (t\<lparr>cycles := cycles t + 1\<rparr>)))
                < BUFFER_LIMIT)"
proof -
  have fast: "processingSpeed opts = Fast"
    using assms by (simp add: speed_no_pressure)
  have all: "\<forall>t \<in> set (start opts now # loopStates opts random now (start opts now)
            @ [finalState opts random now]). drained t"
    by (rule run_states_invariant) (simp_all add: drained_start drained_tick [OF fast] drained_finish)
  then have "drained (finalState opts random now)" by simp
  then have fin: "backpressureEvents (finalState opts random now) = 0"
      "itemsDropped (finalState opts random now) = 0"
    by (simp_all add: drained_def)
  have room: "length (buffer t) < BUFFER_LIMIT
      \<and> length (buffer (producerPhase opts random now (t\<lparr>cycles := cycles t + 1\<rparr>))) < BUFFER_LIMIT"
    if "drained t" for t
    using that drained_midway [OF that, of opts random now]
    by (simp add: drained_def BUFFER_LIMIT_def)
  have "\<forall>t \<in> set (start opts now # loopStates opts random now (start opts now)
              @ [finalState opts random now]).
          length (buffer t) < BUFFER_LIMIT
            \<and> length (buffer (producerPhase opts random now (t\<lparr>cycles := cycles t + 1\<rparr>)))
                < BUFFER_LIMIT"
    using all room by blast
  then show ?thesis using fin by blast
qed

text \<open>The run at speed \<open>fast\<close> without backpressure, which processes all 20 items.\<close>

theorem fast_consumer_never_fills_witness:
  "processDelay (processingSpeed (demoOptions Fast False)) < producerInterval
    \<and> itemsProcessed (finalState (demoOptions Fast False) sampleRandom sampleClock) = 20
    \<and> backpressureEvents (finalState (demoOptions Fast False) sampleRandom sampleClock) = 0
    \<and> itemsDropped (finalState (demoOptions Fast False) sampleRandom sampleClock) = 0"
proof -
  have "counts (finalState (demoOptions Fast False) sampleRandom sampleClock)
      = (60, 20, 20, 0, 0, 0)"
    by (simp add: counts_finalState demoOptions_def countLoop_fast_off)
  then have "itemsProcessed (finalState (demoOptions Fast False) sampleRandom sampleClock) = 20"
    by (simp add: counts_def)
  then show ?thesis
    using fast_consumer_never_fills [of "demoOptions Fast False" sampleRandom sampleClock]
    by (simp add: demoOptions_def producerInterval_def)
qed

text \<open>
  Claim C6 says that two runs with the same options and the same random source deliver
  identical event sequences. Every event carries \<open>timestamp: Date.now()\<close>, so two runs
  started at different times deliver different events: already the first events differ.
\<close>

theorem rerun_counterexample:
  "snd (runRealTimeStreamDemo (demoOptions Fast True) sampleRandom sampleClock)
     \<noteq> snd (runRealTimeStreamDemo (demoOptions Fast True) sampleRandom laterClock)"
proof
  assume eq: "snd (runRealTimeStreamDemo (demoOptions Fast True) sampleRandom sampleClock)
     = snd (runRealTimeStreamDemo (demoOptions Fast True) sampleRandom laterClock)"
  have "timestamp (hd (snd (runRealTimeStreamDemo (demoOptions Fast True) sampleRandom sampleClock)))
      = sampleClock 0"
    using first_event_finalState [of "demoOptions Fast True" sampleRandom sampleClock]
    by (simp add: runRealTimeStreamDemo_def)
  moreover have
    "timestamp (hd (snd (runRealTimeStreamDemo (demoOptions Fast True) sampleRandom laterClock)))
      = laterClock 0"
    using first_event_finalState [of "demoOptions Fast True" sampleRandom laterClock]
    by (simp add: runRealTimeStreamDemo_def)
  ultimately have "sampleClock 0 = laterClock 0" using eq by simp
  then show False by (simp add: sampleClock_def laterClock_def)
qed

text \<open>
  Claim C6, amended. Two runs with the same options and the same random source deliver
  the same events in the same order up to the \<open>timestamp\<close> property (same type, message
  and data), and return the same object; the timestamps are the successive readings of
  the clock.
\<close>

theorem rerun_same_up_to_timestamps:
  "map payload (snd (runRealTimeStreamDemo opts random now1))
      = map payload (snd (runRealTimeStreamDemo opts random now2))
    \<and> fst (runRealTimeStreamDemo opts random now1) = fst (runRealTimeStreamDemo opts random now2)
    \<and> map timestamp (snd (runRealTimeStreamDemo opts random now1))
        = map now1 [0..<length (snd (runRealTimeStreamDemo opts random now1))]"
  using sameButTime_finalState [of opts random now1 now2] stamped_finalState [of now1 opts random]
  by (simp add: runRealTimeStreamDemo_def sameButTime_def returned_def resultSum_def stamped_def)

text \<open>The two runs of the counterexample.\<close>

theorem rerun_same_up_to_timestamps_witness:
  "map payload (snd (runRealTimeStreamDemo (demoOptions Fast True) sampleRandom sampleClock))
      = map payload (snd (runRealTimeStreamDemo (demoOptions Fast True) sampleRandom laterClock))
    \<and> fst (runRealTimeStreamDemo (demoOptions Fast True) sampleRandom sampleClock)
        = fst (runRealTimeStreamDemo (demoOptions Fast True) sampleRandom laterClock)"
  using rerun_same_up_to_timestamps [of "demoOptions Fast True" sampleRandom sampleClock laterClock]
  by blast

text \<open>
  Claim C7. The loop terminates (\<open>loop\<close> is a total function, with the measure
  \<open>maxCycles - cycles\<close>). From the initial state it runs at most 60 cycles, where
  \<open>maxCycles = 60\<close>; the number of cycles run is the final value of \<open>cycles\<close>; every
  state but the last has fewer than 60 cycles and fewer than 20 items processed; the last
  one has reached 20 processed items or 60 cycles; and from a state with 20 items
  processed the loop runs no cycle at all.
\<close>

theorem loop_stops_within_budget:
  "length (loopStates opts random now (start opts now)) \<le> 60
    \<and> loop opts random now (start opts now)
        = last (start opts now # loopStates opts random now (start opts now))
    \<and> cycles (loop opts random now (start opts now))
        = length (loopStates opts random now (start opts now))
    \<and> (\<forall>t \<in> set (butlast (loopStates opts random now (start opts now))).
          cycles t < 60 \<and> itemsProcessed t < 20)
    \<and> (20 \<le> itemsProcessed (loop opts random now (start opts now))
          \<or> cycles (loop opts random now (start opts now)) = 60)
    \<and> (\<forall>s. 20 \<le> itemsProcessed s \<longrightarrow> loop opts random now s = s)
    \<and> maxCycles = 60"
proof -
  have m: "maxCycles = 60" by (simp add: maxCycles_def TOTAL_ITEMS_def)
  have len: "length (loopStates opts random now (start opts now)) \<le> 60"
    using loopStates_length [of opts random now "start opts now"] by (simp add: m)
  have cyc: "cycles (loop opts random now (start opts now))
        = length (loopStates opts random now (start opts now))"
    by (simp add: loop_cycles)
  have before: "\<forall>t \<in> set (butlast (loopStates opts random now (start opts now))).
          cycles t < 60 \<and> itemsProcessed t < 20"
    using loopStates_butlast [of _ opts random now "start opts now"]
    by (auto simp: running_def m TOTAL_ITEMS_def)
  have stop: "20 \<le> itemsProcessed (loop opts random now (start opts now))
          \<or> cycles (loop opts random now (start opts now)) = 60"
    using loop_stops [of opts random now "start opts now"] len cyc
    by (auto simp: running_def m TOTAL_ITEMS_def)
  have idle: "\<forall>s. 20 \<le> itemsProcessed s \<longrightarrow> loop opts random now s = s"
    by (simp add: loop.simps running_def TOTAL_ITEMS_def)
  show ?thesis using m len cyc before stop idle loop_last by blast
qed

text \<open>At speed \<open>fast\<close> the 20th item is processed in the 60th cycle, not before.\<close>

theorem loop_stops_within_budget_witness:
  "length (loopStates (demoOptions Fast True) sampleRandom sampleClock
             (start (demoOptions Fast True) sampleClock)) = 60
    \<and> itemsProcessed (loop (demoOptions Fast True) sampleRandom sampleClock
             (start (demoOptions Fast True) sampleClock)) = 20
    \<and> cycles (loop (demoOptions Fast True) sampleRandom sampleClock
             (start (demoOptions Fast True) sampleClock)) = 60
    \<and> cycles (loopStates (demoOptions Fast True) sampleRandom sampleClock
             (start (demoOptions Fast True) sampleClock) ! 58) < 60
    \<and> itemsProcessed (loopStates (demoOptions Fast True) sampleRandom sampleClock
             (start (demoOptions Fast True) sampleClock) ! 58) < 20"
proof -
  let ?states = "loopStates (demoOptions Fast True) sampleRandom sampleClock
             (start (demoOptions Fast True) sampleClock)"
  have "counts (loop (demoOptions Fast True) sampleRandom sampleClock
             (start (demoOptions Fast True) sampleClock)) = (60, 20, 20, 0, 0, 0)"
    by (simp add: counts_run demoOptions_def countLoop_fast_on)
  then have p: "itemsProcessed (loop (demoOptions Fast True) sampleRandom sampleClock
             (start (demoOptions Fast True) sampleClock)) = 20"
    and c: "cycles (loop (demoOptions Fast True) sampleRandom sampleClock
             (start (demoOptions Fast True) sampleClock)) = 60"
    by (simp_all add: counts_def)
  have len: "length ?states = 60"
    by (rule length_loopStates_start)
  then have "butlast ?states ! 58 \<in> set (butlast ?states)"
    by (intro nth_mem) simp
  moreover have "butlast ?states ! 58 = ?states ! 58"
    using len by (simp add: nth_butlast)
  ultimately have mem: "?states ! 58 \<in> set (butlast ?states)"
    by simp
  have "\<forall>t \<in> set (butlast ?states). cycles t < 60 \<and> itemsProcessed t < 20"
    using loop_stops_within_budget [of "demoOptions Fast True" sampleRandom sampleClock]
    by blast
  then show ?thesis
    using p c len mem by blast
qed

text \<open>
  Claim C8 says that the returned object contains the generated count, the processed
  count, the dropped count, the backpressure-event count and the sum. The object has no
  property \<open>generated\<close> and no property \<open>dropped\<close>.
\<close>

theorem returned_fields_counterexample:
  "\<not> set [''generated'', ''processed'', ''dropped'', ''backpressureEvents'', ''sum'']
       \<subseteq> fst ` set (fst (runRealTimeStreamDemo (demoOptions Normal True) sampleRandom sampleClock))"
  by (simp add: runRealTimeStreamDemo_def returned_def)

text \<open>
  Claim C8, amended. The returned object has exactly the properties \<open>processed\<close>,
  \<open>sum\<close> and \<open>backpressureEvents\<close>, as the declared return type says. All five numbers,
  the generated and the dropped count among them, are delivered to the sink in the data of
  the last but one event, of type \<open>complete\<close>.
\<close>

theorem returned_object_and_complete_event:
  "fst (runRealTimeStreamDemo opts random now) =
      [(''processed'', int (itemsProcessed (finalState opts random now))),
       (''sum'', resultSum (finalState opts random now)),
       (''backpressureEvents'', int (backpressureEvents (finalState opts random now)))]
    \<and> type (rev (snd (runRealTimeStreamDemo opts random now)) ! 1) = Complete
    \<and> data (rev (snd (runRealTimeStreamDemo opts random now)) ! 1) =
        Some [(''generated'', int (itemsGenerated (finalState opts random now))),
              (''processed'', int (itemsProcessed (finalState opts random now))),
              (''dropped'', int (itemsDropped (finalState opts random now))),
              (''sum'', resultSum (finalState opts random now)),
              (''backpressureEvents'', int (backpressureEvents (finalState opts random now)))]"
  by (simp add: runRealTimeStreamDemo_def returned_def finalState_def emitted_finish)

text \<open>The run at speed \<open>normal\<close> with backpressure enabled.\<close>

theorem returned_object_and_complete_event_witness:
  "map fst (fst (runRealTimeStreamDemo (demoOptions Normal True) sampleRandom sampleClock))
      = [''processed'', ''sum'', ''backpressureEvents'']
    \<and> map_of (fst (runRealTimeStreamDemo (demoOptions Normal True) sampleRandom sampleClock))
          ''processed'' = Some 12
    \<and> map_of (fst (runRealTimeStreamDemo (demoOptions Normal True) sampleRandom sampleClock))
          ''backpressureEvents'' = Some 4"
proof -
  have "counts (finalState (demoOptions Normal True) sampleRandom sampleClock)
      = (60, 16, 12, 0, 4, 4)"
    by (simp add: counts_finalState demoOptions_def countLoop_normal_on)
  then have "itemsProcessed (finalState (demoOptions Normal True) sampleRandom sampleClock) = 12"
    and "backpressureEvents (finalState (demoOptions Normal True) sampleRandom sampleClock) = 4"
    by (simp_all add: counts_def)
  then show ?thesis
    using returned_object_and_complete_event [of "demoOptions Normal True" sampleRandom sampleClock]
    by simp
qed

text \<open>
  Claim C9. Under either policy the generated count is at most 20 before the first
  cycle, after every cycle and at the end of the run, and in a state with 20 items
  generated the producer phase does nothing.
\<close>

theorem generated_never_exceeds_target:
  "(\<forall>t \<in> set (start opts now # loopStates opts random now (start opts now)
            @ [finalState opts random now]). itemsGenerated t \<le> 20)
    \<and> (\<forall>s. 20 \<le> itemsGenerated s \<longrightarrow> producerPhase opts random now s = s)"
proof -
  have "\<forall>t \<in> set (start opts now # loopStates opts random now (start opts now)
            @ [finalState opts random now]). itemsGenerated t \<le> TOTAL_ITEMS"
    by (rule run_states_invariant) (simp_all add: generated_tick)
  then show ?thesis
    using producerPhase_idle [of _ opts random now] by (simp add: TOTAL_ITEMS_def)
qed

text \<open>At speed \<open>slow\<close> without backpressure all 20 items are generated, and the producer phase leaves the final state alone.\<close>

theorem generated_never_exceeds_target_witness:
  "itemsGenerated (finalState (demoOptions Slow False) sampleRandom sampleClock) = 20
    \<and> itemsGenerated (finalState (demoOptions Slow False) sampleRandom sampleClock) \<le> 20
    \<and> producerPhase (demoOptions Slow False) sampleRandom sampleClock
          (finalState (demoOptions Slow False) sampleRandom sampleClock)
        = finalState (demoOptions Slow False) sampleRandom sampleClock"
proof -
  have "counts (finalState (demoOptions Slow False) sampleRandom sampleClock)
      = (60, 20, 3, 13, 0, 4)"
    by (simp add: counts_finalState demoOptions_def countLoop_slow_off)
  then have "itemsGenerated (finalState (demoOptions Slow False) sampleRandom sampleClock) = 20"
    by (simp add: counts_def)
  then show ?thesis
    using generated_never_exceeds_target [of "demoOptions Slow False" sampleClock sampleRandom]
    by simp
qed

text \<open>
  Claim C10. With backpressure disabled the returned object has
  \<open>backpressureEvents = 0\<close>, the sink receives no event of type \<open>backpressure\<close>, and the
  counter is 0 after every cycle.
\<close>

theorem no_backpressure_events_when_disabled:
  assumes "\<not> enableBackpressure opts"
  shows "map_of (fst (runRealTimeStreamDemo opts random now)) ''backpressureEvents'' = Some 0
    \<and> (\<forall>e \<in> set (snd (runRealTimeStreamDemo opts random now)). type e \<noteq> Backpressure)
    \<and> (\<forall>t \<in> set (loopStates opts random now (start opts now)). backpressureEvents t = 0)"
proof -
  let ?P = "\<lambda>t. backpressureEvents t = 0 \<and> noneOfType Backpressure t"
  have all: "\<forall>t \<in> set (start opts now # loopStates opts random now (start opts now)
            @ [finalState opts random now]). ?P t"
  proof (rule run_states_invariant)
    show "?P (start opts now)" by (simp add: noneOfType_start)
  next
    fix t assume "?P t"
    then show "?P (tick opts random now t)"
      using assms by (simp add: blocks_tick noBackpressure_tick)
  next
    fix t assume "?P t"
    then show "?P (finish opts now t)" by (simp add: noneOfType_finish)
  qed
  then have "?P (finalState opts random now)" by simp
  moreover have "\<forall>t \<in> set (loopStates opts random now (start opts now)). backpressureEvents t = 0"
    using all by simp
  ultimately show ?thesis
    by (simp add: runRealTimeStreamDemo_def returned_def noneOfType_def)
qed

text \<open>The run at speed \<open>normal\<close> without backpressure: its first event and its last cycle.\<close>

theorem no_backpressure_events_when_disabled_witness:
  "\<not> enableBackpressure (demoOptions Normal False)
    \<and> map_of (fst (runRealTimeStreamDemo (demoOptions Normal False) sampleRandom sampleClock))
          ''backpressureEvents'' = Some 0
    \<and> type (hd (snd (runRealTimeStreamDemo (demoOptions Normal False) sampleRandom sampleClock)))
        \<noteq> Backpressure
    \<and> length (loopStates (demoOptions Normal False) sampleRandom sampleClock
                 (start (demoOptions Normal False) sampleClock)) = 60
    \<and> backpressureEvents (loopStates (demoOptions Normal False) sampleRandom sampleClock
                 (start (demoOptions Normal False) sampleClock) ! 59) = 0"
proof -
  let ?states = "loopStates (demoOptions Normal False) sampleRandom sampleClock
                 (start (demoOptions Normal False) sampleClock)"
  let ?events = "snd (runRealTimeStreamDemo (demoOptions Normal False) sampleRandom sampleClock)"
  have off: "\<not> enableBackpressure (demoOptions Normal False)"
    by (simp add: demoOptions_def)
  have len: "length ?states = 60"
    by (rule length_loopStates_start)
  then have last: "?states ! 59 \<in> set ?states"
    by (simp add: nth_mem)
  have "?events \<noteq> []"
    using first_event_finalState [of "demoOptions Normal False" sampleRandom sampleClock]
    by (simp add: runRealTimeStreamDemo_def)
  then have first: "hd ?events \<in> set ?events"
    by simp
  show ?thesis
    using no_backpressure_events_when_disabled [OF off, of sampleRandom sampleClock]
      off len last first
    by blast
qed

end
